theory Spec2Isabelle
  imports Main "HOL-Library.Word" "HOL-Library.Sublist"
begin

section \<open>Values shared by every backend (cache.go)\<close>

text \<open>
  A Go \<open>[]byte\<close> and a Go \<open>string\<close> are byte sequences; the nil slice is the empty
  sequence. A \<open>time.Duration\<close> is a signed 64-bit count of nanoseconds; the code below
  only compares durations with zero and hands them on, so they are integers here.
  The counters of \<open>Stats\<close> are \<open>int64\<close> and are added with \<open>+=\<close>, which wraps.
\<close>

type_synonym bytes = string
type_synonym Duration = int
type_synonym int64 = "64 word"

text \<open>
  Errors. \<open>ErrNotFound\<close> is the package variable of cache.go; \<open>Failure\<close> is an error
  made by \<open>errors.New\<close>; \<open>Wrapped\<close> is an error that unwraps to another one;
  \<open>MultiError\<close> is the aggregate described below.
\<close>

datatype error =
    ErrNotFound
  | Failure string
  | Wrapped string error
  | MultiError "error list"

text \<open>
  \<open>errors.Is(err, target)\<close> of the Go standard library: the error itself, or anything
  it unwraps to, equals the target.
\<close>

fun errors_Is :: "error \<Rightarrow> error \<Rightarrow> bool" where
  "errors_Is ErrNotFound target = (target = ErrNotFound)"
| "errors_Is (Failure m) target = (target = Failure m)"
| "errors_Is (Wrapped m e) target = (target = Wrapped m e \<or> errors_Is e target)"
| "errors_Is (MultiError es) target =
     (target = MultiError es \<or> list_ex (\<lambda>e. errors_Is e target) es)"

text \<open>
  Modelled from the spec: \<open>xerr.MultiError\<close> belongs to the module
  github.com/actforgood/xerr, which is not part of the sources. The spec describes it as
  an ordered collection of underlying errors in which the empty collection stands for
  "no error". The nil pointer the loops start from and the empty collection are both
  the empty list; \<open>Add\<close> appends one error; \<open>ErrOrNil\<close> gives nil for the empty
  collection and the aggregate otherwise.
\<close>

definition Add :: "error list \<Rightarrow> error \<Rightarrow> error list" where
  "Add mErr err = mErr @ [err]"

definition ErrOrNil :: "error list \<Rightarrow> error option" where
  "ErrOrNil mErr = (if mErr = [] then None else Some (MultiError mErr))"

record Stats =
  Memory :: int64
  MaxMemory :: int64
  Hits :: int64
  Misses :: int64
  Keys :: int64
  Expired :: int64
  Evicted :: int64

definition zeroStats :: Stats where
  "zeroStats = \<lparr>Memory = 0, MaxMemory = 0, Hits = 0, Misses = 0, Keys = 0,
     Expired = 0, Evicted = 0\<rparr>"

text \<open>
  The \<open>Cache\<close> interface. A backend is stateful and backends may share state, so every
  method runs on one world \<open>'w\<close> and returns the world it leaves. A method returns
  what the Go method returns: \<open>Load\<close> a value together with an error that may be nil.
\<close>

record 'w Cache =
  Save :: "string \<Rightarrow> bytes \<Rightarrow> Duration \<Rightarrow> 'w \<Rightarrow> error option \<times> 'w"
  Load :: "string \<Rightarrow> 'w \<Rightarrow> (bytes \<times> error option) \<times> 'w"
  TTL :: "string \<Rightarrow> 'w \<Rightarrow> (Duration \<times> error option) \<times> 'w"
  Stats :: "'w \<Rightarrow> (Stats \<times> error option) \<times> 'w"

section \<open>Multi: the composite cache\<close>

text \<open>
  The order in which \<open>Multi\<close> calls its backends is part of its contract. Each call of
  a backend method is therefore recorded, with the index of the backend in
  \<open>cache.caches\<close>, the arguments and the outcome, at the end of a log that travels with
  the world. The log is ghost state: no backend and no loop reads it.
\<close>

datatype event =
    EvSave nat string bytes Duration "error option"
  | EvLoad nat string bytes "error option"
  | EvTTL nat string Duration "error option"
  | EvStats nat Stats "error option"

type_synonym 'w run = "'w \<times> event list"

definition call_Save ::
  "'w Cache \<Rightarrow> nat \<Rightarrow> string \<Rightarrow> bytes \<Rightarrow> Duration \<Rightarrow> 'w run \<Rightarrow> error option \<times> 'w run" where
  "call_Save c i key val expire \<sigma> =
     (case Save c key val expire (fst \<sigma>) of
        (err, w') \<Rightarrow> (err, (w', snd \<sigma> @ [EvSave i key val expire err])))"




subsection \<open>Multi.Save\<close>

text \<open>
  \<open>for _, c := range cache.caches\<close>: the loop runs over the backends that are left,
  \<open>idx\<close> counting the ones already visited (it only feeds the log), \<open>mErr\<close> holding
  the errors added so far.
\<close>

fun Save_range ::
  "string \<Rightarrow> bytes \<Rightarrow> Duration \<Rightarrow> nat \<Rightarrow> 'w Cache list \<Rightarrow> error list \<Rightarrow> 'w run
     \<Rightarrow> error option \<times> 'w run" where
  "Save_range key val expire idx [] mErr \<sigma> = (ErrOrNil mErr, \<sigma>)"
| "Save_range key val expire idx (c # rest) mErr \<sigma> =
     (case call_Save c idx key val expire \<sigma> of
        (Some err, \<sigma>') \<Rightarrow> Save_range key val expire (Suc idx) rest (Add mErr err) \<sigma>'
      | (None, \<sigma>') \<Rightarrow> Save_range key val expire (Suc idx) rest mErr \<sigma>')"

definition Multi_Save ::
  "'w Cache list \<Rightarrow> string \<Rightarrow> bytes \<Rightarrow> Duration \<Rightarrow> 'w run \<Rightarrow> error option \<times> 'w run" where
  "Multi_Save caches key val expire \<sigma> = Save_range key val expire 0 caches [] \<sigma>"

subsection \<open>Multi.Load\<close>




subsection \<open>Multi.TTL\<close>



subsection \<open>Multi.Stats\<close>




subsection \<open>Reading the log\<close>

text \<open>
  The outcomes that backends returned, listed in the order of the calls, give the
  events that a loop over consecutive backends appends: the call at position \<open>j\<close> of the
  list went to the backend with index \<open>idx + j\<close>.
\<close>

definition saveEvents ::
  "string \<Rightarrow> bytes \<Rightarrow> Duration \<Rightarrow> nat \<Rightarrow> error option list \<Rightarrow> event list" where
  "saveEvents key val expire idx rs =
     map (\<lambda>(i, r). EvSave i key val expire r) (zip [idx..<idx + length rs] rs)"







text \<open>The errors among a list of outcomes, in order; and those that are not "not found".\<close>

fun failures :: "error option list \<Rightarrow> error list" where
  "failures [] = []"
| "failures (None # rs) = failures rs"
| "failures (Some e # rs) = e # failures rs"



text \<open>The field-wise sum of a list of \<open>Stats\<close>, in \<open>int64\<close> arithmetic.\<close>

definition sumStats :: "Stats list \<Rightarrow> Stats" where
  "sumStats ss =
     \<lparr>Memory = sum_list (map Memory ss), MaxMemory = sum_list (map MaxMemory ss),
      Hits = sum_list (map Hits ss), Misses = sum_list (map Misses ss),
      Keys = sum_list (map Keys ss), Expired = sum_list (map Expired ss),
      Evicted = sum_list (map Evicted ss)\<rparr>"

subsection \<open>What the backends are asked to do\<close>

text \<open>
  Independently of the loops of \<open>Multi\<close>: \<open>saveInto\<close> calls Save, with one key, value and
  expiry, on the backends whose indices are listed, in the order of the list, each call
  on the world the call before it left; it returns what the calls returned and the world
  after the last one. \<open>loadFrom\<close> does the same with Load.
\<close>

fun saveInto ::
  "'w Cache list \<Rightarrow> string \<Rightarrow> bytes \<Rightarrow> Duration \<Rightarrow> nat list \<Rightarrow> 'w \<Rightarrow> error option list \<times> 'w" where
  "saveInto caches key val expire [] w = ([], w)"
| "saveInto caches key val expire (i # rest) w =
     (case Save (caches ! i) key val expire w of
        (r, w1) \<Rightarrow>
          (case saveInto caches key val expire rest w1 of (rs, w') \<Rightarrow> (r # rs, w')))"



subsection \<open>A test double\<close>

text \<open>
  The \<open>Mock\<close> of the sources with constant callbacks: every method answers with a fixed
  result and leaves the world alone. (The call counters of \<open>Mock\<close> are what the log
  records.) With no callbacks set, \<open>Mock\<close> answers nil to Save, \<open>ErrNotFound\<close> to Load,
  \<open>(-1, nil)\<close> to TTL and zero \<open>Stats\<close>.
\<close>

definition stub ::
  "error option \<Rightarrow> bytes \<times> error option \<Rightarrow> Duration \<times> error option \<Rightarrow> Stats \<times> error option
     \<Rightarrow> 'w Cache" where
  "stub sv ld tt st =
     \<lparr>Save = (\<lambda>key val expire w. (sv, w)), Load = (\<lambda>key w. (ld, w)),
      TTL = (\<lambda>key w. (tt, w)), Stats = (\<lambda>w. (st, w))\<rparr>"





text \<open>
  Test doubles that remember: the world holds one list of entries (key, value, expiry)
  per tier, and \<open>memoTier i\<close> saves into, deletes from (negative expiry) and reads the
  list of tier \<open>i\<close>. \<open>failingTier\<close> answers every call with an error.
\<close>

type_synonym tiers = "(string \<times> bytes \<times> Duration) list list"

definition memoTier :: "nat \<Rightarrow> tiers Cache" where
  "memoTier i =
     \<lparr>Save = (\<lambda>key val expire w.
        (None,
         w[i := (if expire < 0 then filter (\<lambda>x. fst x \<noteq> key) (w ! i)
                 else (key, val, expire) # filter (\<lambda>x. fst x \<noteq> key) (w ! i))])),
      Load = (\<lambda>key w.
        (case map_of (w ! i) key of
           None \<Rightarrow> ([], Some ErrNotFound)
         | Some (val, expire) \<Rightarrow> (val, None), w)),
      TTL = (\<lambda>key w.
        (case map_of (w ! i) key of
           None \<Rightarrow> (- 1, None)
         | Some (val, expire) \<Rightarrow> (expire, None), w)),
      Stats = (\<lambda>w. ((zeroStats, None), w))\<rparr>"

definition failingTier :: "error \<Rightarrow> tiers Cache" where
  "failingTier err = stub (Some err) ([], Some err) (- 1, Some err) (zeroStats, Some err)"

section \<open>Redis statistics (redis_config.go)\<close>

text \<open>The markers looked up in the reply of the \<open>INFO\<close> command, and the two marker lists.\<close>

definition redisInfoPrefixMem :: string where "redisInfoPrefixMem = ''used_memory:''"

definition redisInfoPrefixMaxMem :: string where "redisInfoPrefixMaxMem = ''maxmemory:''"

definition redisInfoPrefixTotalSystemMem :: string where
  "redisInfoPrefixTotalSystemMem = ''total_system_memory:''"

definition redisInfoPrefixHits :: string where "redisInfoPrefixHits = ''keyspace_hits:''"

definition redisInfoPrefixMisses :: string where "redisInfoPrefixMisses = ''keyspace_misses:''"

definition redisInfoPrefixEvictedKeys :: string where "redisInfoPrefixEvictedKeys = ''evicted_keys:''"

definition redisInfoPrefixExpiredKeys :: string where "redisInfoPrefixExpiredKeys = ''expired_keys:''"

definition clusterReplicaKeyPrefixes :: "string list" where
  "clusterReplicaKeyPrefixes = [redisInfoPrefixHits, redisInfoPrefixMisses]"

definition clusterMasterKeyPrefixes :: "string list" where
  "clusterMasterKeyPrefixes =
     [redisInfoPrefixMem, redisInfoPrefixMaxMem, redisInfoPrefixTotalSystemMem,
      redisInfoPrefixEvictedKeys, redisInfoPrefixExpiredKeys, redisInfoPrefixHits,
      redisInfoPrefixMisses]"

text \<open>
  \<open>bytes.Index(s, sep)\<close> of the Go standard library: the index of the first instance of
  \<open>sep\<close> in \<open>s\<close>, or \<open>-1\<close> if there is none (0 for an empty \<open>sep\<close>).
  \<open>Index_from i s sep\<close> searches the suffix \<open>s\<close> that starts at index \<open>i\<close>.
\<close>

fun Index_from :: "nat \<Rightarrow> bytes \<Rightarrow> bytes \<Rightarrow> int" where
  "Index_from i [] sep = (if sep = [] then int i else - 1)"
| "Index_from i (b # s) sep =
     (if prefix sep (b # s) then int i else Index_from (Suc i) s sep)"

definition bytes_Index :: "bytes \<Rightarrow> bytes \<Rightarrow> int" where
  "bytes_Index s sep = Index_from 0 s sep"

text \<open>\<open>b >= '0' && b <= '9'\<close>, and the value of such a byte.\<close>

definition isDigit :: "char \<Rightarrow> bool" where
  "isDigit b = ((48 :: nat) \<le> of_char b \<and> of_char b \<le> (57 :: nat))"

definition digitVal :: "char \<Rightarrow> nat" where
  "digitVal b = of_char b - 48"

text \<open>
  The inner loop of \<open>parseInfoStats\<close>. It walks \<open>info\<close> from
  \<open>digitIdx = idx + len(keyPrefix)\<close> on, so it is given the bytes from there on;
  \<open>digitsLen\<close> counts the digits copied so far and \<open>cap(extractedDigits)\<close> is 20.
  The loop ends at the end of \<open>info\<close>, after 20 digits, or at the first byte that is
  not a digit. The result is \<open>extractedDigits[:digitsLen]\<close>, from the current position on.
\<close>

fun extractDigits :: "bytes \<Rightarrow> nat \<Rightarrow> bytes" where
  "extractDigits [] digitsLen = []"
| "extractDigits (b # rest) digitsLen =
     (if digitsLen < 20 then
        (if isDigit b then b # extractDigits rest (Suc digitsLen) else [])
      else [])"

text \<open>
  \<open>strconv.ParseInt(s, 10, 64)\<close> of the Go standard library, with \<open>ParseUint\<close>, for base
  10 and 64 bits. A \<open>uint64\<close> is a natural number here and the overflow tests are the ones
  of the library: \<open>n >= cutoff\<close> before the multiplication by 10, and a sum beyond
  \<open>maxUint64\<close> after the addition of the digit. A value out of range gives the nearest
  bound together with a range error; a byte that is not a decimal digit gives 0 together
  with a syntax error. \<open>parseInfoStats\<close> drops the error.
\<close>

definition ErrSyntax :: error where "ErrSyntax = Failure ''invalid syntax''"

definition ErrRange :: error where "ErrRange = Failure ''value out of range''"

definition maxUint64 :: nat where "maxUint64 = 18446744073709551615"

fun ParseUint_loop :: "string \<Rightarrow> nat \<Rightarrow> nat \<times> error option" where
  "ParseUint_loop [] n = (n, None)"
| "ParseUint_loop (c # s) n =
     (if \<not> isDigit c then (0, Some ErrSyntax)
      else if n \<ge> maxUint64 div 10 + 1 then (maxUint64, Some ErrRange)
      else (let n1 = n * 10 + digitVal c in
            if n1 > maxUint64 then (maxUint64, Some ErrRange)
            else ParseUint_loop s n1))"

definition ParseUint :: "string \<Rightarrow> nat \<times> error option" where
  "ParseUint s = (if s = [] then (0, Some ErrSyntax) else ParseUint_loop s 0)"

definition ParseInt :: "string \<Rightarrow> int \<times> error option" where
  "ParseInt s =
     (case s of
        [] \<Rightarrow> (0, Some ErrSyntax)
      | c # s1 \<Rightarrow>
          (let neg = (c = CHR ''-'');
               s' = (if c = CHR ''+'' \<or> c = CHR ''-'' then s1 else s);
               (un, err) = ParseUint s'
           in if err \<noteq> None \<and> err \<noteq> Some ErrRange then (0, err)
              else if \<not> neg \<and> un \<ge> 2 ^ 63 then (2 ^ 63 - 1, Some ErrRange)
              else if neg \<and> un > 2 ^ 63 then (- (2 ^ 63), Some ErrRange)
              else (if neg then - int un else int un, None)))"

text \<open>
  \<open>parseInfoStats\<close>: the loop \<open>for _, keyPrefix := range keyPrefixes\<close> with the
  \<open>stats\<close> built so far, and the function itself, which starts from the zero \<open>Stats\<close>.
  The comparison \<open>stats.MaxMemory > 0\<close> is a signed comparison of \<open>int64\<close>.
\<close>

fun parseInfoStats_range :: "bytes \<Rightarrow> string list \<Rightarrow> Stats \<Rightarrow> Stats" where
  "parseInfoStats_range info [] stats = stats"
| "parseInfoStats_range info (keyPrefix # rest) stats =
     (let idx = bytes_Index info keyPrefix in
      if idx \<noteq> - 1 then
        (let digits = extractDigits (drop (nat idx + length keyPrefix) info) 0;
             infoIntValue = (word_of_int (fst (ParseInt digits)) :: int64)
         in parseInfoStats_range info rest
              (if keyPrefix = redisInfoPrefixMem then stats\<lparr>Memory := infoIntValue\<rparr>
               else if keyPrefix = redisInfoPrefixMaxMem then
                 (if 0 <s MaxMemory stats then stats\<lparr>MaxMemory := infoIntValue\<rparr> else stats)
               else if keyPrefix = redisInfoPrefixTotalSystemMem then
                 (if MaxMemory stats = 0 then stats\<lparr>MaxMemory := infoIntValue\<rparr> else stats)
               else if keyPrefix = redisInfoPrefixEvictedKeys then
                 stats\<lparr>Evicted := infoIntValue\<rparr>
               else if keyPrefix = redisInfoPrefixExpiredKeys then
                 stats\<lparr>Expired := infoIntValue\<rparr>
               else if keyPrefix = redisInfoPrefixHits then stats\<lparr>Hits := infoIntValue\<rparr>
               else if keyPrefix = redisInfoPrefixMisses then stats\<lparr>Misses := infoIntValue\<rparr>
               else stats\<lparr>Keys := infoIntValue\<rparr>))
      else parseInfoStats_range info rest stats)"

definition parseInfoStats :: "bytes \<Rightarrow> string list \<Rightarrow> Stats" where
  "parseInfoStats info keyPrefixes = parseInfoStats_range info keyPrefixes zeroStats"

subsection \<open>What a report says about a marker\<close>

text \<open>
  Independently of the loops above: the value of a string of decimal digits; the first
  position at which a marker occurs in a report; the run of decimal digits that starts at
  a position, cut after 20 digits; and the \<open>int64\<close> that a report gives for a marker:
  0 when the marker does not occur, otherwise the value of the run of digits after its
  first occurrence, or 2^63 - 1 when that value is larger. An empty run has value 0.
\<close>

definition decimal :: "string \<Rightarrow> nat" where
  "decimal ds = foldl (\<lambda>n c. n * 10 + digitVal c) 0 ds"

fun decimal_from :: "nat \<Rightarrow> string \<Rightarrow> nat" where
  "decimal_from n [] = n"
| "decimal_from n (c # s) = decimal_from (n * 10 + digitVal c) s"

definition firstOccurrence :: "bytes \<Rightarrow> bytes \<Rightarrow> nat option" where
  "firstOccurrence info marker =
     List.find (\<lambda>i. prefix marker (drop i info)) [0..<Suc (length info)]"

definition digitRun :: "bytes \<Rightarrow> nat \<Rightarrow> bytes" where
  "digitRun info k = take 20 (takeWhile isDigit (drop k info))"

definition markerValue :: "bytes \<Rightarrow> bytes \<Rightarrow> int64" where
  "markerValue info marker =
     (case firstOccurrence info marker of
        None \<Rightarrow> 0
      | Some i \<Rightarrow>
          word_of_int (min (int (decimal (digitRun info (i + length marker)))) (2 ^ 63 - 1)))"

text \<open>The value a list of markers gives for one marker: 0 unless the marker is in the list.\<close>

definition fieldOf :: "bytes \<Rightarrow> string list \<Rightarrow> string \<Rightarrow> int64" where
  "fieldOf info keyPrefixes marker =
     (if marker \<in> set keyPrefixes then markerValue info marker else 0)"

section \<open>Memory: the in-process backend (memory.go)\<close>

text \<open>
  The store behind \<open>Memory\<close> is the library github.com/coocood/freecache, which is not
  part of the sources: its operations are parameters of the model, over a store type
  \<open>'fc\<close>. \<open>Set\<close> takes the expiry in whole seconds, 0 standing for "no expiry"; \<open>TTL\<close>
  answers with a \<open>uint32\<close> count of seconds together with an error; \<open>fc_entries\<close> is what
  an iterator of the store yields.
\<close>

record 'fc freecache =
  fc_NewCache :: "int \<Rightarrow> 'fc"
  fc_Set :: "bytes \<Rightarrow> bytes \<Rightarrow> int \<Rightarrow> 'fc \<Rightarrow> error option \<times> 'fc"
  fc_Del :: "bytes \<Rightarrow> 'fc \<Rightarrow> bool \<times> 'fc"
  fc_Get :: "bytes \<Rightarrow> 'fc \<Rightarrow> (bytes \<times> error option) \<times> 'fc"
  fc_TTL :: "bytes \<Rightarrow> 'fc \<Rightarrow> (32 word \<times> error option) \<times> 'fc"
  fc_entries :: "'fc \<Rightarrow> (bytes \<times> bytes) list"

definition freecache_ErrNotFound :: error where
  "freecache_ErrNotFound = Failure ''Entry not found''"

definition freecacheMinBufSize :: int where
  "freecacheMinBufSize = 512 * 1024"

definition getRealMemorySize :: "int \<Rightarrow> int" where
  "getRealMemorySize mem = (if mem < freecacheMinBufSize then freecacheMinBufSize else mem)"

text \<open>
  The struct \<open>Memory\<close>. Its mutex only matters to the reconfiguration below; \<open>rLock\<close>
  and \<open>rUnlock\<close> do not change what a method computes.
\<close>

record 'fc Memory =
  client :: 'fc
  memSize :: int

definition NewMemory :: "'fc freecache \<Rightarrow> int \<Rightarrow> 'fc Memory" where
  "NewMemory lib sz =
     (let mem = getRealMemorySize sz
      in \<lparr>client = fc_NewCache lib mem, memSize = mem\<rparr>)"

text \<open>
  \<open>int(expire.Seconds())\<close> for a duration that is not negative. \<open>Seconds\<close> returns the
  float64 \<open>sec + nsec / 1e9\<close> and the conversion to \<open>int\<close> cuts the fraction off. For a
  duration below one second \<open>sec\<close> is 0 and \<open>nsec / 1e9\<close> is a float64 below 1, so the
  result is 0, as the integer quotient is. (From about 2^24 seconds on the float64
  sum can round up to the next second where the quotient does not.)
\<close>

definition Second :: Duration where
  "Second = 1000000000"

definition Seconds_int :: "Duration \<Rightarrow> int" where
  "Seconds_int d = d div Second"

definition Memory_Save ::
  "'fc freecache \<Rightarrow> string \<Rightarrow> bytes \<Rightarrow> Duration \<Rightarrow> 'fc Memory \<Rightarrow> error option \<times> 'fc Memory" where
  "Memory_Save lib key val expire cache =
     (if expire < 0 then
        (None, cache\<lparr>client := snd (fc_Del lib key (client cache))\<rparr>)
      else
        (let expireSeconds = Seconds_int expire;
             expireSeconds = (if expire > 0 \<and> expireSeconds = 0 then 1 else expireSeconds)
         in case fc_Set lib key val expireSeconds (client cache) of
              (err, cl) \<Rightarrow> (err, cache\<lparr>client := cl\<rparr>)))"

text \<open>\<open>errors.Is(err, target)\<close> for an error that may be nil.\<close>

definition isErr :: "error option \<Rightarrow> error \<Rightarrow> bool" where
  "isErr err target = (case err of None \<Rightarrow> False | Some e \<Rightarrow> errors_Is e target)"

definition Memory_Load ::
  "'fc freecache \<Rightarrow> string \<Rightarrow> 'fc Memory \<Rightarrow> (bytes \<times> error option) \<times> 'fc Memory" where
  "Memory_Load lib key cache =
     (case fc_Get lib key (client cache) of
        ((val, err), cl) \<Rightarrow>
          (if isErr err freecache_ErrNotFound then (([], Some ErrNotFound), cache\<lparr>client := cl\<rparr>)
           else ((val, err), cache\<lparr>client := cl\<rparr>)))"

text \<open>\<open>Memory.TTL\<close>; \<open>time.Duration(ttl)\<close> converts the \<open>uint32\<close> to \<open>int64\<close> as it is.\<close>

definition Memory_TTL ::
  "'fc freecache \<Rightarrow> string \<Rightarrow> 'fc Memory \<Rightarrow> (Duration \<times> error option) \<times> 'fc Memory" where
  "Memory_TTL lib key cache =
     (case fc_TTL lib key (client cache) of
        ((ttl, err), cl) \<Rightarrow>
          (if isErr err freecache_ErrNotFound then ((- 1, None), cache\<lparr>client := cl\<rparr>)
           else ((uint ttl, err), cache\<lparr>client := cl\<rparr>)))"

text \<open>
  A small store to run the model on: a list of entries (key, value, seconds), the newest
  first, with a clock that stands still.
\<close>

type_synonym store = "(bytes \<times> bytes \<times> int) list"

definition storeLib :: "store freecache" where
  "storeLib =
     \<lparr>fc_NewCache = (\<lambda>size. []),
      fc_Set = (\<lambda>key val expireSeconds s.
        (None, (key, val, expireSeconds) # filter (\<lambda>x. fst x \<noteq> key) s)),
      fc_Del = (\<lambda>key s. (list_ex (\<lambda>x. fst x = key) s, filter (\<lambda>x. fst x \<noteq> key) s)),
      fc_Get = (\<lambda>key s.
        (case map_of s key of
           None \<Rightarrow> (([], Some freecache_ErrNotFound), s)
         | Some (val, e) \<Rightarrow> ((val, None), s))),
      fc_TTL = (\<lambda>key s.
        (case map_of s key of
           None \<Rightarrow> ((0, Some freecache_ErrNotFound), s)
         | Some (val, e) \<Rightarrow> ((word_of_int e, None), s))),
      fc_entries = (\<lambda>s. map (\<lambda>x. (fst x, fst (snd x))) s)\<rparr>"

section \<open>Reconfiguration (memory_xconf_adapter.go, redis6_xconf_adapter.go, redis7)\<close>

text \<open>
  \<open>onConfigChange\<close> is a callback of one goroutine. What it does to the mutex and to the
  clients, one step after the other, is returned with the new state of the backend.
\<close>

definition MemoryCfgKeyMemorySize :: string where
  "MemoryCfgKeyMemorySize = ''xcache.memory.memsizebytes''"

definition memoryCfgDefValueMemorySize :: int where
  "memoryCfgDefValueMemorySize = 10 * 1024 * 1024"

datatype step =
    MuLock
  | MuUnlock
  | NewCache int
  | OldTTL bytes
  | NewSet bytes bytes int
  | NewUniversalClient
  | SetClient
  | SetMemSize
  | SetIsCluster
  | SetStatsKeyPrefixes
  | CloseOldClient

text \<open>
  The first loop of \<open>Memory.onConfigChange\<close>: \<open>memSize\<close> stays 0 unless the memory-size
  key is among the changed keys; \<open>config\<close> is \<open>config.Get(key, default)\<close> for an integer
  setting.
\<close>

fun changedMemSize :: "(string \<Rightarrow> int \<Rightarrow> int) \<Rightarrow> string list \<Rightarrow> int" where
  "changedMemSize config [] = 0"
| "changedMemSize config (changedKey # rest) =
     (if changedKey = MemoryCfgKeyMemorySize
      then getRealMemorySize (config MemoryCfgKeyMemorySize memoryCfgDefValueMemorySize)
      else changedMemSize config rest)"

text \<open>
  The migration loop: for every entry of the old client its TTL is read from the old client,
  and the entry is set in the new client unless that failed.
\<close>

fun copyEntries ::
  "'fc freecache \<Rightarrow> (bytes \<times> bytes) list \<Rightarrow> 'fc \<Rightarrow> 'fc \<Rightarrow> 'fc \<times> step list" where
  "copyEntries lib [] oldClient newClient = (newClient, [])"
| "copyEntries lib (entry # rest) oldClient newClient =
     (case fc_TTL lib (fst entry) oldClient of
        ((ttl, None), old') \<Rightarrow>
          (case copyEntries lib rest old'
                  (snd (fc_Set lib (fst entry) (snd entry) (uint ttl) newClient)) of
             (cl, steps) \<Rightarrow>
               (cl, OldTTL (fst entry) # NewSet (fst entry) (snd entry) (uint ttl) # steps))
      | ((ttl, Some err), old') \<Rightarrow>
          (case copyEntries lib rest old' newClient of
             (cl, steps) \<Rightarrow> (cl, OldTTL (fst entry) # steps)))"

definition Memory_onConfigChange ::
  "'fc freecache \<Rightarrow> (string \<Rightarrow> int \<Rightarrow> int) \<Rightarrow> string list \<Rightarrow> 'fc Memory
     \<Rightarrow> 'fc Memory \<times> step list" where
  "Memory_onConfigChange lib config changedKeys cache =
     (let mem = changedMemSize config changedKeys in
      if mem = 0 then (cache, [])
      else if mem \<noteq> memSize cache then
        (case copyEntries lib (fc_entries lib (client cache)) (client cache)
                (fc_NewCache lib mem) of
           (newClient, steps) \<Rightarrow>
             (\<lparr>client = newClient, memSize = mem\<rparr>,
              [MuLock, NewCache mem] @ steps @ [SetClient, SetMemSize, MuUnlock]))
      else (cache, [MuLock, MuUnlock]))"

text \<open>
  The Redis adapters. \<open>Redis6.onConfigChange\<close> and \<open>Redis7.onConfigChange\<close> are the same
  text over two versions of the client library; \<open>newUniversalClient\<close> is the constructor
  of the library and \<open>redisConfig\<close> is what \<open>getRedisConfig(config)\<close> returns.
\<close>

definition isRedisConfigKey :: "string \<Rightarrow> bool" where
  "isRedisConfigKey key =
     (key = ''xcache.redis.addrs'' \<or> key = ''xcache.redis.db''
      \<or> key = ''xcache.redis.auth.username'' \<or> key = ''xcache.redis.auth.password''
      \<or> key = ''xcache.redis.timeout.dial'' \<or> key = ''xcache.redis.timeout.read''
      \<or> key = ''xcache.redis.timeout.write'' \<or> key = ''xcache.redis.cluster.readonly''
      \<or> key = ''xcache.redis.failover.mastername''
      \<or> key = ''xcache.redis.failover.auth.usernmae''
      \<or> key = ''xcache.redis.failover.auth.password'')"

record RedisAuth =
  Username :: string
  Password :: string

record RedisConfig =
  Addrs :: "string list"
  DB :: int
  Auth :: RedisAuth
  DialTimeout :: Duration
  ReadTimeout :: Duration
  WriteTimeout :: Duration
  ReadOnly :: bool
  MasterName :: string
  SentinelAuth :: RedisAuth

definition IsCluster :: "RedisConfig \<Rightarrow> bool" where
  "IsCluster rc = (length (Addrs rc) > 1 \<and> MasterName rc = [])"

text \<open>
  \<open>strconv.FormatInt(i, 10)\<close>, and \<open>setStatsKeyPrefixes\<close> of Redis6 and Redis7: on a
  cluster the seven fixed markers, otherwise these followed by the key-count marker of the
  selected database, \<open>db<N>:keys=\<close>.
\<close>

fun digitsOf :: "nat \<Rightarrow> string" where
  "digitsOf n =
     (if n < 10 then [char_of (48 + n)]
      else digitsOf (n div 10) @ [char_of (48 + n mod 10)])"

definition FormatInt :: "int \<Rightarrow> string" where
  "FormatInt i = (if i < 0 then CHR ''-'' # digitsOf (nat (- i)) else digitsOf (nat i))"

definition keysCountPrefix :: "int \<Rightarrow> string" where
  "keysCountPrefix db = ''db'' @ FormatInt db @ '':keys=''"

definition setStatsKeyPrefixes :: "bool \<Rightarrow> int \<Rightarrow> string list" where
  "setStatsKeyPrefixes cluster db =
     (if cluster then clusterMasterKeyPrefixes
      else clusterMasterKeyPrefixes @ [keysCountPrefix db])"

record 'rc Redis =
  rclient :: 'rc
  isCluster :: bool
  statsInfoKeyPrefixes :: "string list"

fun configHasChanged :: "string list \<Rightarrow> bool" where
  "configHasChanged [] = False"
| "configHasChanged (changedKey # rest) =
     (if isRedisConfigKey changedKey then True else configHasChanged rest)"

definition Redis_onConfigChange ::
  "(RedisConfig \<Rightarrow> 'rc) \<Rightarrow> RedisConfig \<Rightarrow> string list \<Rightarrow> 'rc Redis
     \<Rightarrow> 'rc Redis \<times> step list" where
  "Redis_onConfigChange newUniversalClient redisConfig changedKeys cache =
     (if \<not> configHasChanged changedKeys then (cache, [])
      else
        (let newClient = newUniversalClient redisConfig
         in (\<lparr>rclient = newClient, isCluster = IsCluster redisConfig,
              statsInfoKeyPrefixes =
                setStatsKeyPrefixes (IsCluster redisConfig) (DB redisConfig)\<rparr>,
             [NewUniversalClient, MuLock, SetClient, SetIsCluster, SetStatsKeyPrefixes,
              MuUnlock, CloseOldClient])))"

text \<open>The defaults of \<open>getRedisConfig\<close>, with database 1 selected.\<close>

definition localRedisConfig :: RedisConfig where
  "localRedisConfig =
     \<lparr>Addrs = [''127.0.0.1:6379''], DB = 1, Auth = \<lparr>Username = [], Password = []\<rparr>,
      DialTimeout = 5 * Second, ReadTimeout = 3 * Second, WriteTimeout = 5 * Second,
      ReadOnly = False, MasterName = [],
      SentinelAuth = \<lparr>Username = [], Password = []\<rparr>\<rparr>"

text \<open>
  The steps taken while the write lock is held, the steps that build a client or copy
  entries, and the steps on the mutex itself.
\<close>

fun lockedSteps :: "bool \<Rightarrow> step list \<Rightarrow> step list" where
  "lockedSteps held [] = []"
| "lockedSteps held (MuLock # rest) = lockedSteps True rest"
| "lockedSteps held (MuUnlock # rest) = lockedSteps False rest"
| "lockedSteps held (s # rest) =
     (if held then s # lockedSteps held rest else lockedSteps held rest)"

fun isBuild :: "step \<Rightarrow> bool" where
  "isBuild (NewCache n) = True"
| "isBuild (OldTTL k) = True"
| "isBuild (NewSet k v e) = True"
| "isBuild NewUniversalClient = True"
| "isBuild s = False"

fun isLockStep :: "step \<Rightarrow> bool" where
  "isLockStep MuLock = True"
| "isLockStep MuUnlock = True"
| "isLockStep s = False"

section \<open>StatsWatcher (stats.go)\<close>

text \<open>
  The watcher as a state machine of its own fields: whether the ticker is set, the state
  of the channel \<open>closed\<close>, the counter of the wait group, the number of running
  \<open>watchAsync\<close> goroutines, whether a finalizer is registered, and whether each
  \<open>sync.Once\<close> has fired. A method returns the steps it took. \<open>time.NewTicker\<close> panics
  for an interval that is not positive; \<open>sync.Once\<close> counts a call that panicked as done.
  \<open>wg.Wait\<close> returns once the goroutine has ended, which the closed channel makes it do
  when it next selects. \<open>Close\<close> takes the pointer, which may be nil.
\<close>

datatype chan = NoChan | OpenChan | ClosedChan

record StatsWatcher =
  interval :: Duration
  ticker :: bool
  closed :: chan
  wg :: nat
  pollers :: nat
  finalizer :: bool
  watchOnce :: bool
  closeOnce :: bool

datatype wstep =
    NewTicker | MakeChan | WgAdd | GoWatchAsync | SetFinalizer
  | CloseChan | WgWait | ClearFinalizer

datatype outcome = Returned | Panicked

definition NewStatsWatcher :: "Duration \<Rightarrow> StatsWatcher" where
  "NewStatsWatcher d =
     \<lparr>interval = d, ticker = False, closed = NoChan, wg = 0, pollers = 0,
      finalizer = False, watchOnce = False, closeOnce = False\<rparr>"

definition Watch :: "StatsWatcher \<Rightarrow> outcome \<times> StatsWatcher \<times> wstep list" where
  "Watch sw =
     (if watchOnce sw then (Returned, sw, [])
      else if interval sw \<le> 0 then (Panicked, sw\<lparr>watchOnce := True\<rparr>, [])
      else
        (Returned,
         sw\<lparr>ticker := True, closed := OpenChan, wg := wg sw + 1, pollers := pollers sw + 1,
            finalizer := True, watchOnce := True\<rparr>,
         [NewTicker, MakeChan, WgAdd, GoWatchAsync, SetFinalizer]))"

definition Close ::
  "StatsWatcher option \<Rightarrow> error option \<times> StatsWatcher option \<times> wstep list" where
  "Close swp =
     (case swp of
        None \<Rightarrow> (None, None, [])
      | Some sw \<Rightarrow>
          (if ticker sw \<and> \<not> closeOnce sw then
             (None,
              Some (sw\<lparr>closed := ClosedChan, wg := 0, pollers := 0, finalizer := False,
                      closeOnce := True\<rparr>),
              [CloseChan, WgWait, ClearFinalizer])
           else (None, Some sw, [])))"

section \<open>Properties of Multi\<close>

subsection \<open>Multi.Save\<close>

lemma saveEvents_Nil: "saveEvents key val expire idx [] = []"
  by (simp add: saveEvents_def)

lemma saveEvents_Cons:
  "saveEvents key val expire idx (r # rs) =
     EvSave idx key val expire r # saveEvents key val expire (Suc idx) rs"
  by (simp add: saveEvents_def upt_conv_Cons del: upt_Suc)

lemma ErrOrNil_None: "ErrOrNil es = None \<longleftrightarrow> es = []"
  by (simp add: ErrOrNil_def)

lemma failures_Nil_iff: "failures rs = [] \<longleftrightarrow> (\<forall>x\<in>set rs. x = None)"
  by (induction rs rule: failures.induct) auto

lemma Save_range_log:
  "Save_range key val expire idx rest mErr \<sigma> = (r, \<sigma>') \<Longrightarrow>
     \<exists>rs. length rs = length rest
        \<and> snd \<sigma>' = snd \<sigma> @ saveEvents key val expire idx rs
        \<and> r = ErrOrNil (mErr @ failures rs)"
proof (induction rest arbitrary: idx mErr \<sigma>)
  case Nil
  then show ?case by (auto simp: saveEvents_Nil intro: exI [of _ "[]"])
next
  case (Cons c rest)
  obtain e \<sigma>1 where c1: "call_Save c idx key val expire \<sigma> = (e, \<sigma>1)"
    by (cases "call_Save c idx key val expire \<sigma>")
  then have log1: "snd \<sigma>1 = snd \<sigma> @ [EvSave idx key val expire e]"
    by (auto simp: call_Save_def split: prod.splits)
  have "Save_range key val expire (Suc idx) rest (mErr @ failures [e]) \<sigma>1 = (r, \<sigma>')"
    using Cons.prems c1 by (cases e) (simp_all add: Add_def)
  from Cons.IH [OF this] obtain rs where rs: "length rs = length rest"
      "snd \<sigma>' = snd \<sigma>1 @ saveEvents key val expire (Suc idx) rs"
      "r = ErrOrNil ((mErr @ failures [e]) @ failures rs)"
    by blast
  have "failures [e] @ failures rs = failures (e # rs)" by (cases e) simp_all
  with rs log1 show ?case
    by (intro exI [of _ "e # rs"]) (simp add: saveEvents_Cons)
qed

lemma length_saveInto:
  "saveInto caches key val expire is w = (rs, w') \<Longrightarrow> length rs = length is"
  by (induction "is" arbitrary: w rs) (auto split: prod.splits)

lemma Save_range_run:
  "rest = drop idx caches \<Longrightarrow>
     Save_range key val expire idx rest mErr (w, log) =
       (case saveInto caches key val expire [idx..<length caches] w of
          (rs, w') \<Rightarrow>
            (ErrOrNil (mErr @ failures rs), (w', log @ saveEvents key val expire idx rs)))"
proof (induction rest arbitrary: idx mErr w log)
  case Nil
  then have "length caches \<le> idx" by simp
  then show ?case by (simp add: saveEvents_Nil)
next
  case (Cons c rest)
  from Cons.prems have idx: "idx < length caches"
    by (metis drop_eq_Nil list.distinct(1) not_le)
  with Cons.prems have c: "c = caches ! idx" and rest: "rest = drop (Suc idx) caches"
    by (simp_all add: Cons_nth_drop_Suc [symmetric])
  from idx have upt: "[idx..<length caches] = idx # [Suc idx..<length caches]"
    by (rule upt_conv_Cons)
  obtain r w1 where s: "Save (caches ! idx) key val expire w = (r, w1)"
    by (metis surj_pair)
  obtain rs w2 where rs: "saveInto caches key val expire [Suc idx..<length caches] w1 = (rs, w2)"
    by (metis surj_pair)
  have cs: "call_Save c idx key val expire (w, log) = (r, (w1, log @ [EvSave idx key val expire r]))"
    using s c by (simp add: call_Save_def)
  have step: "Save_range key val expire idx (c # rest) mErr (w, log)
      = Save_range key val expire (Suc idx) rest (mErr @ failures [r])
          (w1, log @ [EvSave idx key val expire r])"
    using cs by (cases r) (simp_all add: Add_def)
  have fl: "(mErr @ failures [r]) @ failures rs = mErr @ failures (r # rs)"
    by (cases r) simp_all
  show ?case
    unfolding step Cons.IH [OF rest] upt
    using s rs fl by (simp add: saveEvents_Cons)
qed

text \<open>
  C3. \<open>Multi.Save\<close> calls Save on every backend, in index order and with the key, value
  and expiry it was given, whatever the earlier backends returned: the world it leaves and
  the outcomes are those of \<open>saveInto\<close> over the indices \<open>0, 1, ...\<close> of all backends, and
  the log grows by exactly one Save event per backend. The result is nil if and only if
  every one of these calls returned nil; otherwise it is the aggregate of the errors the
  failing backends returned, in index order.
\<close>

theorem Multi_Save_every_backend_in_order:
  assumes "Multi_Save caches key val expire (w, log) = (r, (w', log'))"
  shows "\<exists>rs. saveInto caches key val expire [0..<length caches] w = (rs, w')
           \<and> length rs = length caches
           \<and> log' = log @ saveEvents key val expire 0 rs
           \<and> (r = None \<longleftrightarrow> (\<forall>x\<in>set rs. x = None))
           \<and> (r \<noteq> None \<longrightarrow> r = Some (MultiError (failures rs)))"
proof -
  obtain rs w2 where rs: "saveInto caches key val expire [0..<length caches] w = (rs, w2)"
    by (metis surj_pair)
  from assms Save_range_run [of caches 0 caches key val expire "[]" w log] rs
  have eq: "r = ErrOrNil (failures rs)" "w' = w2" "log' = log @ saveEvents key val expire 0 rs"
    by (simp_all add: Multi_Save_def)
  from length_saveInto [OF rs] have len: "length rs = length caches" by simp
  from rs eq len show ?thesis
    by (intro exI [of _ rs]) (auto simp: ErrOrNil_def failures_Nil_iff)
qed

theorem Multi_Save_every_backend_in_order_witness:
  "Multi_Save [failingTier (Failure ''down''), memoTier 1] ''k'' ''v'' 5 ([[], []], [])
     = (Some (MultiError [Failure ''down'']),
        ([[], [(''k'', ''v'', 5)]],
         [EvSave 0 ''k'' ''v'' 5 (Some (Failure ''down'')), EvSave 1 ''k'' ''v'' 5 None]))
   \<and> (\<exists>rs. saveInto [failingTier (Failure ''down''), memoTier 1] ''k'' ''v'' 5
               [0..<length [failingTier (Failure ''down''), memoTier 1]] [[], []]
             = (rs, [[], [(''k'', ''v'', 5)]])
           \<and> length rs = length [failingTier (Failure ''down''), memoTier 1]
           \<and> [EvSave 0 ''k'' ''v'' 5 (Some (Failure ''down'')), EvSave 1 ''k'' ''v'' 5 None]
               = [] @ saveEvents ''k'' ''v'' 5 0 rs
           \<and> (Some (MultiError [Failure ''down'']) = None \<longleftrightarrow> (\<forall>x\<in>set rs. x = None))
           \<and> (Some (MultiError [Failure ''down'']) \<noteq> None
                \<longrightarrow> Some (MultiError [Failure ''down'']) = Some (MultiError (failures rs))))"
proof -
  have run: "Multi_Save [failingTier (Failure ''down''), memoTier 1] ''k'' ''v'' 5 ([[], []], [])
     = (Some (MultiError [Failure ''down'']),
        ([[], [(''k'', ''v'', 5)]],
         [EvSave 0 ''k'' ''v'' 5 (Some (Failure ''down'')), EvSave 1 ''k'' ''v'' 5 None]))"
    by (simp add: Multi_Save_def call_Save_def failingTier_def memoTier_def stub_def
        Add_def ErrOrNil_def)
  from Multi_Save_every_backend_in_order [OF run] run show ?thesis by (intro conjI)
qed

subsection \<open>Multi.Load\<close>


















subsection \<open>Multi.TTL\<close>






subsection \<open>Multi.Stats\<close>





lemma sumStats_Nil: "sumStats [] = zeroStats"
  by (simp add: sumStats_def zeroStats_def)




section \<open>Properties of the statistics parser\<close>

lemma find_map_Suc:
  "List.find P (map Suc xs) = map_option Suc (List.find (\<lambda>j. P (Suc j)) xs)"
  by (induction xs) simp_all

lemma Index_from_find:
  "Index_from i s sep =
     (case List.find (\<lambda>j. prefix sep (drop j s)) [0..<Suc (length s)] of
        None \<Rightarrow> - 1 | Some j \<Rightarrow> int (i + j))"
proof (induction s arbitrary: i)
  case Nil
  show ?case by simp
next
  case (Cons b s)
  have upt: "[0..<Suc (length (b # s))] = 0 # map Suc [0..<Suc (length s)]"
    by (simp add: map_Suc_upt upt_conv_Cons del: upt_Suc)
  show ?case
    unfolding upt
    by (simp add: find_map_Suc Cons.IH [of "Suc i"] del: upt_Suc split: option.splits)
qed

lemma bytes_Index_firstOccurrence:
  "bytes_Index info marker =
     (case firstOccurrence info marker of None \<Rightarrow> - 1 | Some i \<Rightarrow> int i)"
  by (simp add: bytes_Index_def firstOccurrence_def Index_from_find del: upt_Suc
      split: option.splits)

lemma firstOccurrence_None:
  "firstOccurrence info marker = None \<longleftrightarrow> (\<forall>i\<le>length info. \<not> prefix marker (drop i info))"
  by (auto simp: firstOccurrence_def find_None_iff less_Suc_eq_le simp del: upt_Suc)

lemma firstOccurrence_Some:
  "firstOccurrence info marker = Some i \<longleftrightarrow>
     i \<le> length info \<and> prefix marker (drop i info) \<and> (\<forall>j<i. \<not> prefix marker (drop j info))"
proof -
  have nth: "[0..<Suc (length info)] ! k = k" if "k < Suc (length info)" for k
    using that nth_upt [of 0 k "Suc (length info)"] by simp
  show ?thesis
    unfolding firstOccurrence_def find_Some_iff
  proof (intro iffI)
    assume "\<exists>k<length [0..<Suc (length info)].
       prefix marker (drop ([0..<Suc (length info)] ! k) info) \<and> i = [0..<Suc (length info)] ! k
       \<and> (\<forall>j<k. \<not> prefix marker (drop ([0..<Suc (length info)] ! j) info))"
    then obtain k where k: "k < Suc (length info)"
        "prefix marker (drop ([0..<Suc (length info)] ! k) info)"
        "i = [0..<Suc (length info)] ! k"
        "\<forall>j<k. \<not> prefix marker (drop ([0..<Suc (length info)] ! j) info)"
      by auto
    have ik: "i = k" using k(3) nth [OF k(1)] by simp
    have "\<not> prefix marker (drop j info)" if "j < i" for j
    proof -
      from that ik k(1) have "j < k" "j < Suc (length info)" by simp_all
      with k(4) nth [of j] show ?thesis by auto
    qed
    with k(1,2) ik nth [OF k(1)] show
      "i \<le> length info \<and> prefix marker (drop i info) \<and> (\<forall>j<i. \<not> prefix marker (drop j info))"
      by auto
  next
    assume a: "i \<le> length info \<and> prefix marker (drop i info) \<and> (\<forall>j<i. \<not> prefix marker (drop j info))"
    then have i: "i < Suc (length info)" by simp
    have "\<not> prefix marker (drop ([0..<Suc (length info)] ! j) info)" if "j < i" for j
    proof -
      from that i have "j < Suc (length info)" by simp
      with nth [of j] a that show ?thesis by auto
    qed
    with a i nth [OF i] have
      "i < length [0..<Suc (length info)] \<and>
       prefix marker (drop ([0..<Suc (length info)] ! i) info) \<and> i = [0..<Suc (length info)] ! i
       \<and> (\<forall>j<i. \<not> prefix marker (drop ([0..<Suc (length info)] ! j) info))"
      by (simp del: upt_Suc)
    then show "\<exists>k<length [0..<Suc (length info)].
       prefix marker (drop ([0..<Suc (length info)] ! k) info) \<and> i = [0..<Suc (length info)] ! k
       \<and> (\<forall>j<k. \<not> prefix marker (drop ([0..<Suc (length info)] ! j) info))"
      by blast
  qed
qed

lemma extractDigits_eq:
  "extractDigits s n = take (20 - n) (takeWhile isDigit s)"
proof (induction s arbitrary: n)
  case Nil
  show ?case by simp
next
  case (Cons b s)
  show ?case
  proof (cases "n < 20")
    case True
    then have "20 - n = Suc (20 - Suc n)" by simp
    with True Cons.IH [of "Suc n"] show ?thesis by simp
  next
    case False
    then show ?thesis by simp
  qed
qed

lemma extractDigits_digitRun: "extractDigits (drop k info) 0 = digitRun info k"
  by (simp add: extractDigits_eq digitRun_def)

lemma decimal_from_foldl: "decimal_from n s = foldl (\<lambda>n c. n * 10 + digitVal c) n s"
  by (induction s arbitrary: n) simp_all

lemma decimal_from_ge: "n \<le> decimal_from n s"
proof (induction s arbitrary: n)
  case Nil
  show ?case by simp
next
  case (Cons c s)
  have "n \<le> n * 10 + digitVal c" by simp
  also have "\<dots> \<le> decimal_from (n * 10 + digitVal c) s" by (rule Cons.IH)
  finally show ?case by simp
qed

lemma ParseUint_loop_digits:
  "\<forall>c\<in>set s. isDigit c \<Longrightarrow> n \<le> maxUint64 \<Longrightarrow>
     ParseUint_loop s n =
       (if decimal_from n s \<le> maxUint64 then (decimal_from n s, None)
        else (maxUint64, Some ErrRange))"
proof (induction s arbitrary: n)
  case Nil
  then show ?case by simp
next
  case (Cons c s)
  from Cons.prems have dc: "isDigit c" and ds: "\<forall>c\<in>set s. isDigit c" by simp_all
  let ?n1 = "n * 10 + digitVal c"
  have ge: "?n1 \<le> decimal_from ?n1 s" by (rule decimal_from_ge)
  show ?case
  proof (cases "n \<ge> maxUint64 div 10 + 1")
    case True
    then have "maxUint64 < ?n1" by (simp add: maxUint64_def)
    with ge have "\<not> decimal_from n (c # s) \<le> maxUint64" by simp
    with True dc show ?thesis by simp
  next
    case False
    show ?thesis
    proof (cases "?n1 > maxUint64")
      case True
      with ge have "\<not> decimal_from n (c # s) \<le> maxUint64" by simp
      with True False dc show ?thesis by (simp add: Let_def)
    next
      case n1: False
      then have "?n1 \<le> maxUint64" by simp
      from Cons.IH [OF ds this] False n1 dc show ?thesis by (simp add: Let_def)
    qed
  qed
qed

lemma isDigit_not_sign: "isDigit c \<Longrightarrow> c \<noteq> CHR ''+'' \<and> c \<noteq> CHR ''-''"
  by (auto simp: isDigit_def)

lemma decimal_decimal_from: "decimal s = decimal_from 0 s"
  by (simp add: decimal_def decimal_from_foldl)

lemma ParseInt_digits:
  assumes "\<forall>c\<in>set s. isDigit c"
  shows "fst (ParseInt s) = min (int (decimal s)) (2 ^ 63 - 1)"
proof (cases s)
  case Nil
  then show ?thesis by (simp add: ParseInt_def decimal_def)
next
  case (Cons c s1)
  with assms have "isDigit c" by simp
  then have sign: "c \<noteq> CHR ''+''" "c \<noteq> CHR ''-''" using isDigit_not_sign by blast+
  have pu: "ParseUint s =
       (if decimal s \<le> maxUint64 then (decimal s, None) else (maxUint64, Some ErrRange))"
    using ParseUint_loop_digits [OF assms, of 0] Cons
    by (simp add: ParseUint_def decimal_decimal_from maxUint64_def)
  show ?thesis
  proof (cases "decimal s \<le> maxUint64")
    case True
    with pu have "ParseUint s = (decimal s, None)" by simp
    with Cons sign show ?thesis
      by (simp add: ParseInt_def Let_def min_def)
  next
    case False
    with pu have "ParseUint s = (maxUint64, Some ErrRange)" by simp
    moreover from False have "\<not> int (decimal s) \<le> 2 ^ 63 - 1" by (simp add: maxUint64_def)
    ultimately show ?thesis using Cons sign
      by (simp add: ParseInt_def Let_def min_def maxUint64_def)
  qed
qed

lemma digitRun_digits: "\<forall>c\<in>set (digitRun info k). isDigit c"
  by (auto simp: digitRun_def dest: in_set_takeD set_takeWhileD)

lemmas prefix_defs = redisInfoPrefixMem_def redisInfoPrefixMaxMem_def
  redisInfoPrefixTotalSystemMem_def redisInfoPrefixHits_def redisInfoPrefixMisses_def
  redisInfoPrefixEvictedKeys_def redisInfoPrefixExpiredKeys_def

lemma infoIntValue_found:
  assumes "firstOccurrence info p = Some i"
  shows "bytes_Index info p \<noteq> - 1"
    and "word_of_int (fst (ParseInt (extractDigits (drop (nat (bytes_Index info p) + length p) info) 0)))
           = markerValue info p"
  using assms
  by (simp_all add: bytes_Index_firstOccurrence extractDigits_digitRun markerValue_def
      ParseInt_digits [OF digitRun_digits])

lemma range_not_found:
  "firstOccurrence info p = None \<Longrightarrow>
     parseInfoStats_range info (p # rest) st = parseInfoStats_range info rest st"
  by (simp add: bytes_Index_firstOccurrence)

lemma range_found:
  assumes "firstOccurrence info p = Some i"
  shows "parseInfoStats_range info (p # rest) st =
       parseInfoStats_range info rest
         (if p = redisInfoPrefixMem then st\<lparr>Memory := markerValue info p\<rparr>
          else if p = redisInfoPrefixMaxMem then
            (if 0 <s MaxMemory st then st\<lparr>MaxMemory := markerValue info p\<rparr> else st)
          else if p = redisInfoPrefixTotalSystemMem then
            (if MaxMemory st = 0 then st\<lparr>MaxMemory := markerValue info p\<rparr> else st)
          else if p = redisInfoPrefixEvictedKeys then st\<lparr>Evicted := markerValue info p\<rparr>
          else if p = redisInfoPrefixExpiredKeys then st\<lparr>Expired := markerValue info p\<rparr>
          else if p = redisInfoPrefixHits then st\<lparr>Hits := markerValue info p\<rparr>
          else if p = redisInfoPrefixMisses then st\<lparr>Misses := markerValue info p\<rparr>
          else st\<lparr>Keys := markerValue info p\<rparr>)"
proof -
  note a = infoIntValue_found(1) [OF assms] and b = infoIntValue_found(2) [OF assms]
  show ?thesis
    by (simp only: parseInfoStats_range.simps Let_def a b simp_thms if_True if_False)
qed

lemmas range_step = range_found range_not_found

lemma prefix_distinct: "distinct clusterMasterKeyPrefixes"
  by (simp add: clusterMasterKeyPrefixes_def prefix_defs)

lemma Memory_range:
  "Memory (parseInfoStats_range info ps st) =
     (if redisInfoPrefixMem \<in> set ps \<and> firstOccurrence info redisInfoPrefixMem \<noteq> None
      then markerValue info redisInfoPrefixMem else Memory st)"
proof (induction ps arbitrary: st)
  case Nil
  show ?case by simp
next
  case (Cons p ps)
  show ?case
  proof (cases "firstOccurrence info p")
    case None
    then show ?thesis
      by (auto simp: range_not_found Cons.IH simp del: parseInfoStats_range.simps)
  next
    case (Some i)
    then show ?thesis
      using prefix_distinct
      by (auto simp: range_found Cons.IH clusterMasterKeyPrefixes_def
          simp del: parseInfoStats_range.simps)
  qed
qed

lemma Evicted_range:
  "Evicted (parseInfoStats_range info ps st) =
     (if redisInfoPrefixEvictedKeys \<in> set ps
         \<and> firstOccurrence info redisInfoPrefixEvictedKeys \<noteq> None
      then markerValue info redisInfoPrefixEvictedKeys else Evicted st)"
proof (induction ps arbitrary: st)
  case Nil
  show ?case by simp
next
  case (Cons p ps)
  show ?case
  proof (cases "firstOccurrence info p")
    case None
    then show ?thesis
      by (auto simp: range_not_found Cons.IH simp del: parseInfoStats_range.simps)
  next
    case (Some i)
    then show ?thesis
      using prefix_distinct
      by (auto simp: range_found Cons.IH clusterMasterKeyPrefixes_def
          simp del: parseInfoStats_range.simps)
  qed
qed

lemma Expired_range:
  "Expired (parseInfoStats_range info ps st) =
     (if redisInfoPrefixExpiredKeys \<in> set ps
         \<and> firstOccurrence info redisInfoPrefixExpiredKeys \<noteq> None
      then markerValue info redisInfoPrefixExpiredKeys else Expired st)"
proof (induction ps arbitrary: st)
  case Nil
  show ?case by simp
next
  case (Cons p ps)
  show ?case
  proof (cases "firstOccurrence info p")
    case None
    then show ?thesis
      by (auto simp: range_not_found Cons.IH simp del: parseInfoStats_range.simps)
  next
    case (Some i)
    then show ?thesis
      using prefix_distinct
      by (auto simp: range_found Cons.IH clusterMasterKeyPrefixes_def
          simp del: parseInfoStats_range.simps)
  qed
qed

lemma Hits_range:
  "Hits (parseInfoStats_range info ps st) =
     (if redisInfoPrefixHits \<in> set ps
         \<and> firstOccurrence info redisInfoPrefixHits \<noteq> None
      then markerValue info redisInfoPrefixHits else Hits st)"
proof (induction ps arbitrary: st)
  case Nil
  show ?case by simp
next
  case (Cons p ps)
  show ?case
  proof (cases "firstOccurrence info p")
    case None
    then show ?thesis
      by (auto simp: range_not_found Cons.IH simp del: parseInfoStats_range.simps)
  next
    case (Some i)
    then show ?thesis
      using prefix_distinct
      by (auto simp: range_found Cons.IH clusterMasterKeyPrefixes_def
          simp del: parseInfoStats_range.simps)
  qed
qed

lemma Misses_range:
  "Misses (parseInfoStats_range info ps st) =
     (if redisInfoPrefixMisses \<in> set ps
         \<and> firstOccurrence info redisInfoPrefixMisses \<noteq> None
      then markerValue info redisInfoPrefixMisses else Misses st)"
proof (induction ps arbitrary: st)
  case Nil
  show ?case by simp
next
  case (Cons p ps)
  show ?case
  proof (cases "firstOccurrence info p")
    case None
    then show ?thesis
      by (auto simp: range_not_found Cons.IH simp del: parseInfoStats_range.simps)
  next
    case (Some i)
    then show ?thesis
      using prefix_distinct
      by (auto simp: range_found Cons.IH clusterMasterKeyPrefixes_def
          simp del: parseInfoStats_range.simps)
  qed
qed

lemma Keys_range:
  assumes "kp \<notin> set clusterMasterKeyPrefixes"
  shows "set ps \<subseteq> set clusterMasterKeyPrefixes \<union> {kp} \<Longrightarrow>
     Keys (parseInfoStats_range info ps st) =
       (if kp \<in> set ps \<and> firstOccurrence info kp \<noteq> None
        then markerValue info kp else Keys st)"
proof (induction ps arbitrary: st)
  case Nil
  show ?case by simp
next
  case (Cons p ps)
  from Cons.prems have sub: "set ps \<subseteq> set clusterMasterKeyPrefixes \<union> {kp}"
    and p: "p \<in> set clusterMasterKeyPrefixes \<or> p = kp" by auto
  note IH = Cons.IH [OF sub]
  show ?case
  proof (cases "firstOccurrence info p")
    case None
    then show ?thesis
      by (auto simp: range_not_found IH simp del: parseInfoStats_range.simps)
  next
    case (Some i)
    then show ?thesis
      using assms p
      by (auto simp: range_found IH clusterMasterKeyPrefixes_def
          simp del: parseInfoStats_range.simps)
  qed
qed

lemma MaxMemory_range:
  assumes "firstOccurrence info redisInfoPrefixMaxMem = None"
    and "firstOccurrence info redisInfoPrefixTotalSystemMem = None"
  shows "MaxMemory (parseInfoStats_range info ps st) = MaxMemory st"
proof (induction ps arbitrary: st)
  case Nil
  show ?case by simp
next
  case (Cons p ps)
  show ?case
  proof (cases "firstOccurrence info p")
    case None
    then show ?thesis
      by (auto simp: range_not_found Cons.IH simp del: parseInfoStats_range.simps)
  next
    case (Some i)
    then show ?thesis
      using assms
      by (auto simp: range_found Cons.IH simp del: parseInfoStats_range.simps)
  qed
qed

lemma markerValue_absent: "firstOccurrence info marker = None \<Longrightarrow> markerValue info marker = 0"
  by (simp add: markerValue_def)

text \<open>
  What holds of the fields other than \<open>MaxMemory\<close>. Let the markers passed to \<open>parseInfoStats\<close> be taken from the seven
  fixed markers and one key-count marker \<open>kp\<close> (as the lists built by
  \<open>setStatsKeyPrefixes\<close> and \<open>clusterReplicaKeyPrefixes\<close> are). Then each of
  \<open>Memory\<close>, \<open>Evicted\<close>, \<open>Expired\<close>, \<open>Hits\<close>, \<open>Misses\<close> and \<open>Keys\<close> is 0 when
  its marker is not passed or does not occur in the report, and otherwise is the value of
  the run of decimal digits after the first occurrence of its marker, at most 20 digits
  being read, with 0 for an empty run and 2^63 - 1 for a value beyond \<open>int64\<close>.
  Nothing else in the report has a part in these fields. \<open>MaxMemory\<close> is 0 when neither
  \<open>maxmemory:\<close> nor \<open>total_system_memory:\<close> occurs.
\<close>

theorem parseInfoStats_markers:
  assumes "set keyPrefixes \<subseteq> set clusterMasterKeyPrefixes \<union> {kp}"
    and "kp \<notin> set clusterMasterKeyPrefixes"
  shows "Memory (parseInfoStats info keyPrefixes) = fieldOf info keyPrefixes redisInfoPrefixMem
       \<and> Evicted (parseInfoStats info keyPrefixes)
           = fieldOf info keyPrefixes redisInfoPrefixEvictedKeys
       \<and> Expired (parseInfoStats info keyPrefixes)
           = fieldOf info keyPrefixes redisInfoPrefixExpiredKeys
       \<and> Hits (parseInfoStats info keyPrefixes) = fieldOf info keyPrefixes redisInfoPrefixHits
       \<and> Misses (parseInfoStats info keyPrefixes) = fieldOf info keyPrefixes redisInfoPrefixMisses
       \<and> Keys (parseInfoStats info keyPrefixes) = fieldOf info keyPrefixes kp
       \<and> (firstOccurrence info redisInfoPrefixMaxMem = None
            \<and> firstOccurrence info redisInfoPrefixTotalSystemMem = None
          \<longrightarrow> MaxMemory (parseInfoStats info keyPrefixes) = 0)"
proof -
  have 1: "Memory (parseInfoStats info keyPrefixes) = fieldOf info keyPrefixes redisInfoPrefixMem"
    by (auto simp: parseInfoStats_def fieldOf_def Memory_range zeroStats_def markerValue_absent)
  have 2: "Evicted (parseInfoStats info keyPrefixes)
           = fieldOf info keyPrefixes redisInfoPrefixEvictedKeys"
    by (auto simp: parseInfoStats_def fieldOf_def Evicted_range zeroStats_def markerValue_absent)
  have 3: "Expired (parseInfoStats info keyPrefixes)
           = fieldOf info keyPrefixes redisInfoPrefixExpiredKeys"
    by (auto simp: parseInfoStats_def fieldOf_def Expired_range zeroStats_def markerValue_absent)
  have 4: "Hits (parseInfoStats info keyPrefixes) = fieldOf info keyPrefixes redisInfoPrefixHits"
    by (auto simp: parseInfoStats_def fieldOf_def Hits_range zeroStats_def markerValue_absent)
  have 5: "Misses (parseInfoStats info keyPrefixes) = fieldOf info keyPrefixes redisInfoPrefixMisses"
    by (auto simp: parseInfoStats_def fieldOf_def Misses_range zeroStats_def markerValue_absent)
  have 6: "Keys (parseInfoStats info keyPrefixes) = fieldOf info keyPrefixes kp"
    using Keys_range [OF assms(2) assms(1), of info zeroStats]
    by (auto simp: parseInfoStats_def fieldOf_def zeroStats_def markerValue_absent)
  have 7: "firstOccurrence info redisInfoPrefixMaxMem = None
            \<and> firstOccurrence info redisInfoPrefixTotalSystemMem = None
          \<longrightarrow> MaxMemory (parseInfoStats info keyPrefixes) = 0"
    by (auto simp: parseInfoStats_def MaxMemory_range zeroStats_def)
  from 1 2 3 4 5 6 7 show ?thesis by (intro conjI)
qed

theorem parseInfoStats_markers_witness:
  "set (clusterMasterKeyPrefixes @ [''db0:keys=''])
     \<subseteq> set clusterMasterKeyPrefixes \<union> {''db0:keys=''}
   \<and> ''db0:keys='' \<notin> set clusterMasterKeyPrefixes
   \<and> Memory (parseInfoStats ''used_memory:42 db0:keys=7,expires=1''
        (clusterMasterKeyPrefixes @ [''db0:keys=''])) = 42
   \<and> Keys (parseInfoStats ''used_memory:42 db0:keys=7,expires=1''
        (clusterMasterKeyPrefixes @ [''db0:keys=''])) = 7"
proof -
  have h1: "set (clusterMasterKeyPrefixes @ [''db0:keys=''])
     \<subseteq> set clusterMasterKeyPrefixes \<union> {''db0:keys=''}"
    by simp
  have h2: "''db0:keys='' \<notin> set clusterMasterKeyPrefixes"
    by (simp add: clusterMasterKeyPrefixes_def prefix_defs)
  have m: "redisInfoPrefixMem \<in> set (clusterMasterKeyPrefixes @ [''db0:keys=''])"
    by (simp add: clusterMasterKeyPrefixes_def)
  have v1: "markerValue ''used_memory:42 db0:keys=7,expires=1'' redisInfoPrefixMem = 42"
    by (simp add: markerValue_def firstOccurrence_def digitRun_def decimal_def prefix_defs
        isDigit_def digitVal_def)
  have v2: "markerValue ''used_memory:42 db0:keys=7,expires=1'' ''db0:keys='' = 7"
    by (simp add: markerValue_def firstOccurrence_def digitRun_def decimal_def
        isDigit_def digitVal_def)
  from parseInfoStats_markers [OF h1 h2, of "''used_memory:42 db0:keys=7,expires=1''"]
  have "Memory (parseInfoStats ''used_memory:42 db0:keys=7,expires=1''
        (clusterMasterKeyPrefixes @ [''db0:keys=''])) = 42"
    and "Keys (parseInfoStats ''used_memory:42 db0:keys=7,expires=1''
        (clusterMasterKeyPrefixes @ [''db0:keys=''])) = 7"
    using m v1 v2 by (simp_all add: fieldOf_def)
  with h1 h2 show ?thesis by (intro conjI)
qed

text \<open>
  The marker lists of the sources meet the hypotheses above: the list \<open>setStatsKeyPrefixes\<close>
  builds and the list used for cluster replicas hold fixed markers and at most the
  key-count marker, which starts with \<open>db\<close> and so is none of the fixed ones.
\<close>

lemma keysCountPrefix_not_fixed: "keysCountPrefix db \<notin> set clusterMasterKeyPrefixes"
  by (simp add: keysCountPrefix_def clusterMasterKeyPrefixes_def prefix_defs)

lemma setStatsKeyPrefixes_markers:
  "set (setStatsKeyPrefixes cluster db) \<subseteq> set clusterMasterKeyPrefixes \<union> {keysCountPrefix db}"
  and "set clusterReplicaKeyPrefixes \<subseteq> set clusterMasterKeyPrefixes \<union> {keysCountPrefix db}"
  by (auto simp: setStatsKeyPrefixes_def clusterReplicaKeyPrefixes_def
      clusterMasterKeyPrefixes_def)

text \<open>
  The bound: after \<open>used_memory:\<close> the report below has a run of 20 digits whose value
  is 99999999999999999999, and \<open>Memory\<close> is 9223372036854775807.
\<close>

lemma parseInfoStats_saturates:
  "takeWhile isDigit (drop 12 ''used_memory:99999999999999999999'') = ''99999999999999999999''
   \<and> int (decimal ''99999999999999999999'') = 99999999999999999999
   \<and> sint (Memory (parseInfoStats ''used_memory:99999999999999999999'' clusterMasterKeyPrefixes))
       = 9223372036854775807"
  by (simp add: parseInfoStats_def clusterMasterKeyPrefixes_def prefix_defs bytes_Index_def
      isDigit_def digitVal_def ParseInt_def ParseUint_def maxUint64_def Let_def zeroStats_def
      decimal_def)

text \<open>
  \<open>MaxMemory\<close>. A step of the loop, written with \<open>markerValue\<close>; markers other than
  \<open>maxmemory:\<close> and \<open>total_system_memory:\<close> leave the field alone; and with the marker
  lists of the sources the field is what the report says about \<open>total_system_memory:\<close>,
  whatever it says about \<open>maxmemory:\<close>.
\<close>

lemma MaxMemory_untouched:
  "redisInfoPrefixMaxMem \<notin> set ps \<Longrightarrow> redisInfoPrefixTotalSystemMem \<notin> set ps \<Longrightarrow>
     MaxMemory (parseInfoStats_range info ps st) = MaxMemory st"
proof (induction ps arbitrary: st)
  case Nil
  show ?case by simp
next
  case (Cons p ps)
  show ?case
  proof (cases "firstOccurrence info p")
    case None
    with Cons show ?thesis
      by (auto simp: range_not_found simp del: parseInfoStats_range.simps)
  next
    case (Some i)
    with Cons show ?thesis
      by (auto simp: range_found simp del: parseInfoStats_range.simps)
  qed
qed

lemma range_skip:
  "parseInfoStats_range info (p # rest) st =
     parseInfoStats_range info rest
       (case firstOccurrence info p of
          None \<Rightarrow> st
        | Some i \<Rightarrow>
         (if p = redisInfoPrefixMem then st\<lparr>Memory := markerValue info p\<rparr>
          else if p = redisInfoPrefixMaxMem then
            (if 0 <s MaxMemory st then st\<lparr>MaxMemory := markerValue info p\<rparr> else st)
          else if p = redisInfoPrefixTotalSystemMem then
            (if MaxMemory st = 0 then st\<lparr>MaxMemory := markerValue info p\<rparr> else st)
          else if p = redisInfoPrefixEvictedKeys then st\<lparr>Evicted := markerValue info p\<rparr>
          else if p = redisInfoPrefixExpiredKeys then st\<lparr>Expired := markerValue info p\<rparr>
          else if p = redisInfoPrefixHits then st\<lparr>Hits := markerValue info p\<rparr>
          else if p = redisInfoPrefixMisses then st\<lparr>Misses := markerValue info p\<rparr>
          else st\<lparr>Keys := markerValue info p\<rparr>))"
  by (cases "firstOccurrence info p") (simp_all only: range_found range_not_found option.case)

lemma MaxMemory_ignores_maxmemory:
  "MaxMemory (parseInfoStats info (setStatsKeyPrefixes cluster db))
     = markerValue info redisInfoPrefixTotalSystemMem"
proof -
  have rest: "redisInfoPrefixMaxMem \<notin> set ps \<and> redisInfoPrefixTotalSystemMem \<notin> set ps"
    if "ps = [redisInfoPrefixEvictedKeys, redisInfoPrefixExpiredKeys, redisInfoPrefixHits,
        redisInfoPrefixMisses] \<or> ps = [redisInfoPrefixEvictedKeys, redisInfoPrefixExpiredKeys,
        redisInfoPrefixHits, redisInfoPrefixMisses, keysCountPrefix db]" for ps
    using that by (auto simp: prefix_defs keysCountPrefix_def)
  have main: "MaxMemory (parseInfoStats_range info
        (redisInfoPrefixMem # redisInfoPrefixMaxMem # redisInfoPrefixTotalSystemMem # ps)
        zeroStats) = markerValue info redisInfoPrefixTotalSystemMem"
    if "redisInfoPrefixMaxMem \<notin> set ps" "redisInfoPrefixTotalSystemMem \<notin> set ps" for ps
  proof -
    have ne: "redisInfoPrefixMaxMem \<noteq> redisInfoPrefixMem"
      "redisInfoPrefixTotalSystemMem \<noteq> redisInfoPrefixMem"
      "redisInfoPrefixTotalSystemMem \<noteq> redisInfoPrefixMaxMem"
      by (simp_all add: prefix_defs)
    define stA where "stA = (case firstOccurrence info redisInfoPrefixMem of None \<Rightarrow> zeroStats
        | Some i \<Rightarrow> zeroStats\<lparr>Memory := markerValue info redisInfoPrefixMem\<rparr>)"
    have zA: "MaxMemory stA = 0"
      by (simp add: stA_def zeroStats_def split: option.splits)
    have a: "parseInfoStats_range info
        (redisInfoPrefixMem # redisInfoPrefixMaxMem # redisInfoPrefixTotalSystemMem # ps)
        zeroStats
        = parseInfoStats_range info
            (redisInfoPrefixMaxMem # redisInfoPrefixTotalSystemMem # ps) stA"
      unfolding range_skip [of info redisInfoPrefixMem] stA_def
      by (simp del: parseInfoStats_range.simps split: option.splits)
    have b: "parseInfoStats_range info
            (redisInfoPrefixMaxMem # redisInfoPrefixTotalSystemMem # ps) stA
        = parseInfoStats_range info (redisInfoPrefixTotalSystemMem # ps) stA"
      unfolding range_skip [of info redisInfoPrefixMaxMem]
      using ne zA by (simp del: parseInfoStats_range.simps split: option.splits)
    define stC where "stC = (case firstOccurrence info redisInfoPrefixTotalSystemMem of
          None \<Rightarrow> stA
        | Some i \<Rightarrow> stA\<lparr>MaxMemory := markerValue info redisInfoPrefixTotalSystemMem\<rparr>)"
    have c: "parseInfoStats_range info (redisInfoPrefixTotalSystemMem # ps) stA
        = parseInfoStats_range info ps stC"
      unfolding range_skip [of info redisInfoPrefixTotalSystemMem] stC_def
      using ne zA by (simp del: parseInfoStats_range.simps split: option.splits)
    have zC: "MaxMemory stC = markerValue info redisInfoPrefixTotalSystemMem"
      using zA by (simp add: stC_def markerValue_absent split: option.splits)
    show ?thesis
      unfolding a b c MaxMemory_untouched [OF that] zC ..
  qed
  show ?thesis
    using main rest
    by (auto simp: parseInfoStats_def setStatsKeyPrefixes_def clusterMasterKeyPrefixes_def)
qed

text \<open>
  C6. A marker that occurs in the report is to set its field to the number that follows
  it. For \<open>maxmemory:\<close> the code does not: the case is guarded by
  \<open>stats.MaxMemory > 0\<close>, the field it is about to set, which is still 0 when the marker
  lists of the sources reach it. In the report below \<open>maxmemory:\<close> is followed by 100,
  and \<open>MaxMemory\<close> is the 500 of \<open>total_system_memory:\<close>; without that line it is 0.
  The doc comment of \<open>Stats.MaxMemory\<close> promises the configured maximum unless it is 0.
\<close>

theorem parseInfoStats_maxmemory_ignored:
  "markerValue (''maxmemory:100'' @ [CHR 0x0D, CHR 0x0A] @ ''total_system_memory:500''
      @ [CHR 0x0D, CHR 0x0A]) redisInfoPrefixMaxMem = 100
   \<and> MaxMemory (parseInfoStats (''maxmemory:100'' @ [CHR 0x0D, CHR 0x0A]
        @ ''total_system_memory:500'' @ [CHR 0x0D, CHR 0x0A]) clusterMasterKeyPrefixes) = 500
   \<and> MaxMemory (parseInfoStats (''maxmemory:100'' @ [CHR 0x0D, CHR 0x0A])
        clusterMasterKeyPrefixes) = 0"
  by (simp add: parseInfoStats_def clusterMasterKeyPrefixes_def prefix_defs bytes_Index_def
      isDigit_def digitVal_def ParseInt_def ParseUint_def maxUint64_def Let_def zeroStats_def
      markerValue_def firstOccurrence_def digitRun_def decimal_def)

section \<open>Properties of Memory\<close>

text \<open>
  C7. \<open>Memory.Save\<close> with an expiry strictly between 0 and one second sets the entry
  with an expiry of one second, never with 0 ("no expiry"); with expiry 0 it sets the
  entry with 0; with a negative expiry it deletes the key and returns nil.
\<close>

theorem Memory_Save_expiry:
  "(0 < expire \<and> expire < Second \<longrightarrow>
      Memory_Save lib key val expire cache =
        (case fc_Set lib key val 1 (client cache) of (err, cl) \<Rightarrow> (err, cache\<lparr>client := cl\<rparr>)))
   \<and> (expire = 0 \<longrightarrow>
      Memory_Save lib key val expire cache =
        (case fc_Set lib key val 0 (client cache) of (err, cl) \<Rightarrow> (err, cache\<lparr>client := cl\<rparr>)))
   \<and> (expire < 0 \<longrightarrow>
      Memory_Save lib key val expire cache =
        (None, cache\<lparr>client := snd (fc_Del lib key (client cache))\<rparr>))"
  by (simp add: Memory_Save_def Seconds_int_def Second_def Let_def)

theorem Memory_Save_expiry_witness:
  "(0 :: Duration) < 500000000 \<and> (500000000 :: Duration) < Second
   \<and> Memory_Save storeLib ''k'' ''v'' 500000000 \<lparr>client = [], memSize = 524288\<rparr>
       = (None, \<lparr>client = [(''k'', ''v'', 1)], memSize = 524288\<rparr>)
   \<and> Memory_Save storeLib ''k'' ''v'' 0 \<lparr>client = [], memSize = 524288\<rparr>
       = (None, \<lparr>client = [(''k'', ''v'', 0)], memSize = 524288\<rparr>)
   \<and> Memory_Save storeLib ''k'' [] (- 1) \<lparr>client = [(''k'', ''v'', 0)], memSize = 524288\<rparr>
       = (None, \<lparr>client = [], memSize = 524288\<rparr>)"
  using Memory_Save_expiry [of 500000000 storeLib "''k''" "''v''" "\<lparr>client = [], memSize = 524288\<rparr>"]
    Memory_Save_expiry [of 0 storeLib "''k''" "''v''" "\<lparr>client = [], memSize = 524288\<rparr>"]
    Memory_Save_expiry [of "- 1" storeLib "''k''" "[]" "\<lparr>client = [(''k'', ''v'', 0)], memSize = 524288\<rparr>"]
  by (simp add: storeLib_def Second_def)

text \<open>
  C10. Let the store answer a TTL query with no error or with its "not found" error (the
  only error freecache returns there). Then \<open>Memory.TTL\<close> returns a nil error: \<open>-1\<close> for
  an absent key, and for a present key the count of seconds as the number of the
  duration, which is that many nanoseconds and, unless it is 0, not that many seconds.
\<close>

theorem Memory_TTL_unscaled:
  assumes "fc_TTL lib key (client cache) = ((ttl, err), cl)"
    and "err = None \<or> err = Some freecache_ErrNotFound"
  shows "snd (fst (Memory_TTL lib key cache)) = None
       \<and> (err = Some freecache_ErrNotFound \<longrightarrow> fst (Memory_TTL lib key cache) = (- 1, None))
       \<and> (err = None \<longrightarrow> fst (Memory_TTL lib key cache) = (uint ttl, None)
            \<and> (ttl \<noteq> 0 \<longrightarrow> fst (fst (Memory_TTL lib key cache)) \<noteq> uint ttl * Second))"
proof -
  have "0 < uint ttl" if "ttl \<noteq> 0"
    using that uint_0_iff [of ttl] uint_nonnegative [of ttl] by linarith
  then have "uint ttl \<noteq> uint ttl * Second" if "ttl \<noteq> 0"
    using that by (simp add: Second_def)
  with assms show ?thesis
    by (auto simp: Memory_TTL_def isErr_def freecache_ErrNotFound_def)
qed

theorem Memory_TTL_unscaled_witness:
  "fc_TTL storeLib ''k'' (client \<lparr>client = [(''k'', ''v'', 60)], memSize = 524288\<rparr>)
     = ((60, None), [(''k'', ''v'', 60)])
   \<and> ((None :: error option) = None \<or> (None :: error option) = Some freecache_ErrNotFound)
   \<and> fst (Memory_TTL storeLib ''k'' \<lparr>client = [(''k'', ''v'', 60)], memSize = 524288\<rparr>)
       = (60, None)
   \<and> fst (Memory_TTL storeLib ''absent'' \<lparr>client = [(''k'', ''v'', 60)], memSize = 524288\<rparr>)
       = (- 1, None)"
proof -
  have h1: "fc_TTL storeLib ''k'' (client \<lparr>client = [(''k'', ''v'', 60)], memSize = 524288\<rparr>)
     = ((60, None), [(''k'', ''v'', 60)])"
    by (simp add: storeLib_def)
  have h2: "(None :: error option) = None \<or> (None :: error option) = Some freecache_ErrNotFound"
    by simp
  have g1: "fc_TTL storeLib ''absent'' (client \<lparr>client = [(''k'', ''v'', 60)], memSize = 524288\<rparr>)
     = ((0, Some freecache_ErrNotFound), [(''k'', ''v'', 60)])"
    by (simp add: storeLib_def)
  have g2: "Some freecache_ErrNotFound = None \<or> Some freecache_ErrNotFound = Some freecache_ErrNotFound"
    by simp
  from Memory_TTL_unscaled [OF h1 h2] Memory_TTL_unscaled [OF g1 g2] h1 h2
  show ?thesis by simp
qed

section \<open>Properties of the reconfiguration\<close>

lemma lockedSteps_True_append:
  "\<not> list_ex isLockStep xs \<Longrightarrow> lockedSteps True (xs @ ys) = xs @ lockedSteps True ys"
proof (induction xs)
  case Nil
  show ?case by simp
next
  case (Cons x xs)
  then show ?case by (cases x) simp_all
qed

lemma copyEntries_steps:
  "copyEntries lib entries oldClient newClient = (cl, steps) \<Longrightarrow>
     \<not> list_ex isLockStep steps \<and> list_all isBuild steps"
proof (induction entries arbitrary: oldClient newClient cl steps)
  case Nil
  then show ?case by simp
next
  case (Cons entry rest)
  obtain ttl err old' where t: "fc_TTL lib (fst entry) oldClient = ((ttl, err), old')"
    by (metis surj_pair)
  show ?case
  proof (cases err)
    case None
    obtain cl' steps' where r: "copyEntries lib rest old'
        (snd (fc_Set lib (fst entry) (snd entry) (uint ttl) newClient)) = (cl', steps')"
      by (metis surj_pair)
    with Cons.prems t None have
      "steps = OldTTL (fst entry) # NewSet (fst entry) (snd entry) (uint ttl) # steps'"
      by simp
    with Cons.IH [OF r] show ?thesis by simp
  next
    case (Some e)
    obtain cl' steps' where r: "copyEntries lib rest old' newClient = (cl', steps')"
      by (metis surj_pair)
    with Cons.prems t Some have "steps = OldTTL (fst entry) # steps'" by simp
    with Cons.IH [OF r] show ?thesis by simp
  qed
qed

text \<open>
  C8, as amended. When a Redis key is among the changed keys, \<open>Redis6\<close> and \<open>Redis7\<close>
  build the new client before they take the write lock, hold the lock for the swap of the
  client, of the cluster flag and of the marker list only, and close the old client after
  they have released it. When the memory size changes, \<open>Memory\<close> takes the write lock
  first: the new store is created and every entry is copied while the lock is held, and
  the lock is released after the swap. With no relevant key changed neither takes the lock.
\<close>

theorem onConfigChange_locked_section:
  "(configHasChanged changedKeys \<longrightarrow>
      snd (Redis_onConfigChange newUniversalClient redisConfig changedKeys rcache)
        = [NewUniversalClient, MuLock, SetClient, SetIsCluster, SetStatsKeyPrefixes,
           MuUnlock, CloseOldClient]
      \<and> lockedSteps False
           (snd (Redis_onConfigChange newUniversalClient redisConfig changedKeys rcache))
        = [SetClient, SetIsCluster, SetStatsKeyPrefixes])
   \<and> (changedMemSize config changedKeys' \<noteq> 0
        \<and> changedMemSize config changedKeys' \<noteq> memSize cache \<longrightarrow>
      (\<exists>steps. list_all isBuild steps
         \<and> snd (Memory_onConfigChange lib config changedKeys' cache)
             = [MuLock, NewCache (changedMemSize config changedKeys')] @ steps
                 @ [SetClient, SetMemSize, MuUnlock]
         \<and> lockedSteps False (snd (Memory_onConfigChange lib config changedKeys' cache))
             = [NewCache (changedMemSize config changedKeys')] @ steps
                 @ [SetClient, SetMemSize]))
   \<and> (changedMemSize config changedKeys' = 0 \<longrightarrow>
        Memory_onConfigChange lib config changedKeys' cache = (cache, []))
   \<and> (\<not> configHasChanged changedKeys \<longrightarrow>
        Redis_onConfigChange newUniversalClient redisConfig changedKeys rcache = (rcache, []))"
proof -
  have redis: "configHasChanged changedKeys \<longrightarrow>
      snd (Redis_onConfigChange newUniversalClient redisConfig changedKeys rcache)
        = [NewUniversalClient, MuLock, SetClient, SetIsCluster, SetStatsKeyPrefixes,
           MuUnlock, CloseOldClient]
      \<and> lockedSteps False
           (snd (Redis_onConfigChange newUniversalClient redisConfig changedKeys rcache))
        = [SetClient, SetIsCluster, SetStatsKeyPrefixes]"
    by (simp add: Redis_onConfigChange_def Let_def)
  have mem: "\<exists>steps. list_all isBuild steps
         \<and> snd (Memory_onConfigChange lib config changedKeys' cache)
             = [MuLock, NewCache (changedMemSize config changedKeys')] @ steps
                 @ [SetClient, SetMemSize, MuUnlock]
         \<and> lockedSteps False (snd (Memory_onConfigChange lib config changedKeys' cache))
             = [NewCache (changedMemSize config changedKeys')] @ steps
                 @ [SetClient, SetMemSize]"
    if a: "changedMemSize config changedKeys' \<noteq> 0"
      "changedMemSize config changedKeys' \<noteq> memSize cache"
  proof -
    obtain cl steps where c: "copyEntries lib (fc_entries lib (client cache)) (client cache)
        (fc_NewCache lib (changedMemSize config changedKeys')) = (cl, steps)"
      by (metis surj_pair)
    from copyEntries_steps [OF c] have s: "\<not> list_ex isLockStep steps" "list_all isBuild steps"
      by simp_all
    have tr: "snd (Memory_onConfigChange lib config changedKeys' cache)
        = [MuLock, NewCache (changedMemSize config changedKeys')] @ steps
            @ [SetClient, SetMemSize, MuUnlock]"
      using a c by (simp add: Memory_onConfigChange_def Let_def)
    have "lockedSteps False ([MuLock, NewCache (changedMemSize config changedKeys')] @ steps
            @ [SetClient, SetMemSize, MuUnlock])
        = [NewCache (changedMemSize config changedKeys')] @ steps @ [SetClient, SetMemSize]"
      using lockedSteps_True_append [OF s(1), of "[SetClient, SetMemSize, MuUnlock]"]
      by simp
    with tr s(2) show ?thesis by auto
  qed
  have memz: "changedMemSize config changedKeys' = 0 \<longrightarrow>
        Memory_onConfigChange lib config changedKeys' cache = (cache, [])"
    by (simp add: Memory_onConfigChange_def)
  have rz: "\<not> configHasChanged changedKeys \<longrightarrow>
        Redis_onConfigChange newUniversalClient redisConfig changedKeys rcache = (rcache, [])"
    by (simp add: Redis_onConfigChange_def)
  from redis mem memz rz show ?thesis by blast
qed

theorem onConfigChange_locked_section_witness:
  "configHasChanged [''other'', ''xcache.redis.db'']
   \<and> changedMemSize (\<lambda>key def. 1048576) [MemoryCfgKeyMemorySize] \<noteq> 0
   \<and> changedMemSize (\<lambda>key def. 1048576) [MemoryCfgKeyMemorySize]
       \<noteq> memSize \<lparr>client = [(''k'', ''v'', 60)], memSize = 524288\<rparr>
   \<and> lockedSteps False
        (snd (Redis_onConfigChange (\<lambda>rc. rc) localRedisConfig [''other'', ''xcache.redis.db'']
           \<lparr>rclient = localRedisConfig, isCluster = False, statsInfoKeyPrefixes = []\<rparr>))
       = [SetClient, SetIsCluster, SetStatsKeyPrefixes]
   \<and> (\<exists>steps. list_all isBuild steps
         \<and> snd (Memory_onConfigChange storeLib (\<lambda>key def. 1048576)
                 [MemoryCfgKeyMemorySize] \<lparr>client = [(''k'', ''v'', 60)], memSize = 524288\<rparr>)
             = [MuLock, NewCache (changedMemSize (\<lambda>key def. 1048576) [MemoryCfgKeyMemorySize])]
                 @ steps @ [SetClient, SetMemSize, MuUnlock]
         \<and> lockedSteps False
              (snd (Memory_onConfigChange storeLib (\<lambda>key def. 1048576)
                 [MemoryCfgKeyMemorySize] \<lparr>client = [(''k'', ''v'', 60)], memSize = 524288\<rparr>))
             = [NewCache (changedMemSize (\<lambda>key def. 1048576) [MemoryCfgKeyMemorySize])]
                 @ steps @ [SetClient, SetMemSize])"
proof -
  have h1: "configHasChanged [''other'', ''xcache.redis.db'']"
    by (simp add: isRedisConfigKey_def)
  have h2: "changedMemSize (\<lambda>key def. 1048576) [MemoryCfgKeyMemorySize] \<noteq> 0"
    and h3: "changedMemSize (\<lambda>key def. 1048576) [MemoryCfgKeyMemorySize]
       \<noteq> memSize \<lparr>client = [(''k'', ''v'', 60)], memSize = 524288\<rparr>"
    by (simp_all add: getRealMemorySize_def freecacheMinBufSize_def)
  note t = onConfigChange_locked_section [of "[''other'', ''xcache.redis.db'']" "\<lambda>rc. rc"
      localRedisConfig
      "\<lparr>rclient = localRedisConfig, isCluster = False, statsInfoKeyPrefixes = []\<rparr>"
      "\<lambda>key def. 1048576" "[MemoryCfgKeyMemorySize]"
      "\<lparr>client = [(''k'', ''v'', 60)], memSize = 524288\<rparr>" storeLib]
  from t h1 have r: "lockedSteps False
        (snd (Redis_onConfigChange (\<lambda>rc. rc) localRedisConfig [''other'', ''xcache.redis.db'']
           \<lparr>rclient = localRedisConfig, isCluster = False, statsInfoKeyPrefixes = []\<rparr>))
       = [SetClient, SetIsCluster, SetStatsKeyPrefixes]"
    by blast
  from t h2 h3 have m: "\<exists>steps. list_all isBuild steps
         \<and> snd (Memory_onConfigChange storeLib (\<lambda>key def. 1048576)
                 [MemoryCfgKeyMemorySize] \<lparr>client = [(''k'', ''v'', 60)], memSize = 524288\<rparr>)
             = [MuLock, NewCache (changedMemSize (\<lambda>key def. 1048576) [MemoryCfgKeyMemorySize])]
                 @ steps @ [SetClient, SetMemSize, MuUnlock]
         \<and> lockedSteps False
              (snd (Memory_onConfigChange storeLib (\<lambda>key def. 1048576)
                 [MemoryCfgKeyMemorySize] \<lparr>client = [(''k'', ''v'', 60)], memSize = 524288\<rparr>))
             = [NewCache (changedMemSize (\<lambda>key def. 1048576) [MemoryCfgKeyMemorySize])]
                 @ steps @ [SetClient, SetMemSize]"
    by blast
  from h1 h2 h3 r m show ?thesis by (intro conjI)
qed

text \<open>
  C8 as stated fails for \<open>Memory\<close>: a change of the memory size from 512 KB to 1 MB creates
  the new store and copies the entry between \<open>Lock\<close> and \<open>Unlock\<close>.
\<close>

theorem onConfigChange_build_outside_lock_counterexample:
  "changedMemSize (\<lambda>key def. 1048576) [MemoryCfgKeyMemorySize] = 1048576
   \<and> Memory_onConfigChange storeLib (\<lambda>key def. 1048576) [MemoryCfgKeyMemorySize]
        \<lparr>client = [(''k'', ''v'', 60)], memSize = 524288\<rparr>
      = (\<lparr>client = [(''k'', ''v'', 60)], memSize = 1048576\<rparr>,
         [MuLock, NewCache 1048576, OldTTL ''k'', NewSet ''k'' ''v'' 60, SetClient, SetMemSize,
          MuUnlock])
   \<and> list_ex isBuild (lockedSteps False
        (snd (Memory_onConfigChange storeLib (\<lambda>key def. 1048576) [MemoryCfgKeyMemorySize]
           \<lparr>client = [(''k'', ''v'', 60)], memSize = 524288\<rparr>)))"
  by (simp add: Memory_onConfigChange_def storeLib_def getRealMemorySize_def
      freecacheMinBufSize_def Let_def)

section \<open>Properties of StatsWatcher\<close>

text \<open>
  C9. After one call of \<open>Watch\<close>, a further call takes no step, changes nothing and
  returns: no ticker, channel or goroutine is added, so the one poller keeps its cadence.
  A first \<open>Watch\<close> on a watcher with a positive interval starts exactly one poller.
  \<open>Close\<close> always returns a nil error. A \<open>Close\<close> after a \<open>Close\<close>, and a \<open>Close\<close> on a
  watcher whose ticker is not set (before \<open>Watch\<close>, as on a new watcher), takes no step:
  it closes no channel and waits for nothing.
\<close>

theorem StatsWatcher_idempotent:
  "Watch (fst (snd (Watch sw))) = (Returned, fst (snd (Watch sw)), [])
   \<and> (\<not> watchOnce sw \<and> 0 < interval sw
        \<longrightarrow> pollers (fst (snd (Watch sw))) = pollers sw + 1)
   \<and> fst (Close swp) = None
   \<and> Close (fst (snd (Close swp))) = (None, fst (snd (Close swp)), [])
   \<and> (\<not> ticker sw \<longrightarrow> Close (Some sw) = (None, Some sw, []))
   \<and> Close (Some (NewStatsWatcher d)) = (None, Some (NewStatsWatcher d), [])"
  by (auto simp: Watch_def Close_def NewStatsWatcher_def split: option.splits)

theorem StatsWatcher_idempotent_witness:
  "Watch (NewStatsWatcher 200)
     = (Returned,
        \<lparr>interval = 200, ticker = True, closed = OpenChan, wg = 1, pollers = 1,
         finalizer = True, watchOnce = True, closeOnce = False\<rparr>,
        [NewTicker, MakeChan, WgAdd, GoWatchAsync, SetFinalizer])
   \<and> Watch (fst (snd (Watch (NewStatsWatcher 200))))
       = (Returned, fst (snd (Watch (NewStatsWatcher 200))), [])
   \<and> \<not> watchOnce (NewStatsWatcher 200) \<and> 0 < interval (NewStatsWatcher 200)
   \<and> pollers (fst (snd (Watch (NewStatsWatcher 200)))) = pollers (NewStatsWatcher 200) + 1
   \<and> \<not> ticker (NewStatsWatcher 200)
   \<and> Close (Some (NewStatsWatcher 200)) = (None, Some (NewStatsWatcher 200), [])
   \<and> Close (fst (snd (Close (Some (fst (snd (Watch (NewStatsWatcher 200))))))))
       = (None, fst (snd (Close (Some (fst (snd (Watch (NewStatsWatcher 200))))))), [])"
  using StatsWatcher_idempotent [of "NewStatsWatcher 200"
      "Some (fst (snd (Watch (NewStatsWatcher 200))))" 200]
  by (simp add: Watch_def NewStatsWatcher_def)

end
